theory Spec2Isabelle
  imports Main "HOL-Library.Word"
begin

section \<open>Strings\<close>

text \<open>
  A JavaScript string is a sequence of UTF-16 code units. The regular expressions of
  \<^verbatim>\<open>yzx.mjs\<close> carry no \<^verbatim>\<open>u\<close> flag, so they read code units too.
  \<open>js\<close> turns an ASCII literal into such a string.
\<close>

type_synonym jsstring = "16 word list"

definition js :: "string \<Rightarrow> jsstring" where
  "js s = map of_char s"

text \<open>\<^verbatim>\<open>s.split(sep)\<close> for a separator of one code unit: never the empty array.\<close>

fun split :: "'a \<Rightarrow> 'a list \<Rightarrow> 'a list list" where
  "split sep [] = [[]]"
| "split sep (c # cs) =
     (if c = sep then [] # split sep cs
      else (let r = split sep cs in (c # hd r) # tl r))"

text \<open>\<^verbatim>\<open>a.join(sep)\<close> for a separator of one code unit.\<close>

fun join :: "'a \<Rightarrow> 'a list list \<Rightarrow> 'a list" where
  "join sep [] = []"
| "join sep [x] = x"
| "join sep (x # y # ys) = x @ sep # join sep (y # ys)"

definition LF :: "16 word" where "LF = 0x0A"
definition CR :: "16 word" where "CR = 0x0D"
definition LS :: "16 word" where "LS = 0x2028"
definition PS :: "16 word" where "PS = 0x2029"
definition TAB :: "16 word" where "TAB = 0x09"
definition SPACE :: "16 word" where "SPACE = 0x20"

section \<open>The literate extractor: transformMarkdown\<close>

text \<open>
  The regular expressions of \<^verbatim>\<open>transformMarkdown\<close>, each as the predicate
  \<^verbatim>\<open>re.test(line)\<close>. Without the \<^verbatim>\<open>m\<close> flag \<^verbatim>\<open>$\<close> is the end of the string, and
  without the \<^verbatim>\<open>s\<close> flag \<^verbatim>\<open>.\<close> is any code unit but a line terminator
  (LF, CR, U+2028, U+2029).
\<close>

definition lineTerminator :: "16 word \<Rightarrow> bool" where
  "lineTerminator c = (c = LF \<or> c = CR \<or> c = LS \<or> c = PS)"

definition re_indent4 :: "jsstring \<Rightarrow> bool" where
  \<comment> \<open>\<^verbatim>\<open>/^( {4}|\t)/\<close>\<close>
  "re_indent4 line = (take 4 line = [SPACE, SPACE, SPACE, SPACE] \<or> take 1 line = [TAB])"

definition re_indent :: "jsstring \<Rightarrow> bool" where
  \<comment> \<open>\<^verbatim>\<open>/^( +|\t)/\<close>\<close>
  "re_indent line = (take 1 line = [SPACE] \<or> take 1 line = [TAB])"

definition re_fence_js :: "jsstring \<Rightarrow> bool" where
  \<comment> \<open>\<^verbatim>\<open>/^```(js|javascript)$/\<close>\<close>
  "re_fence_js line = (line = js ''```js'' \<or> line = js ''```javascript'')"

definition re_fence_sh :: "jsstring \<Rightarrow> bool" where
  \<comment> \<open>\<^verbatim>\<open>/^```(sh|bash)$/\<close>\<close>
  "re_fence_sh line = (line = js ''```sh'' \<or> line = js ''```bash'')"

definition re_fence :: "jsstring \<Rightarrow> bool" where
  \<comment> \<open>\<^verbatim>\<open>/^```.*$/\<close>\<close>
  "re_fence line =
     (take 3 line = js ''```'' \<and> list_all (\<lambda>c. \<not> lineTerminator c) (drop 3 line))"

definition re_fence_end :: "jsstring \<Rightarrow> bool" where
  \<comment> \<open>\<^verbatim>\<open>/^```$/\<close>\<close>
  "re_fence_end line = (line = js ''```'')"

text \<open>
  The loop's variables: \<^verbatim>\<open>output\<close>, \<^verbatim>\<open>state\<close> (the strings "root", "tab", "js",
  "bash", "other") and \<^verbatim>\<open>prevLineIsEmpty\<close>.
\<close>

datatype state = Root | Tab | Js | Bash | Other

record extractor =
  output' :: "jsstring list"
  state :: state
  prevLineIsEmpty :: bool

definition push :: "jsstring \<Rightarrow> extractor \<Rightarrow> extractor" where
  "push l x = x\<lparr>output' := output' x @ [l]\<rparr>"

text \<open>One turn of the \<^verbatim>\<open>for\<close> loop: the \<^verbatim>\<open>switch\<close> on the state.\<close>

definition step :: "extractor \<Rightarrow> jsstring \<Rightarrow> extractor" where
  "step x line =
     (case state x of
        Root \<Rightarrow>
          if re_indent4 line \<and> prevLineIsEmpty x then (push line x)\<lparr>state := Tab\<rparr>
          else if re_fence_js line then (push [] x)\<lparr>state := Js\<rparr>
          else if re_fence_sh line then (push (js ''await $`'') x)\<lparr>state := Bash\<rparr>
          else if re_fence line then (push [] x)\<lparr>state := Other\<rparr>
          else push (js ''// '' @ line) (x\<lparr>prevLineIsEmpty := (line = [])\<rparr>)
      | Tab \<Rightarrow>
          if re_indent line then push line x
          else if line = [] then push [] x
          else (push (js ''// '' @ line) x)\<lparr>state := Root\<rparr>
      | Js \<Rightarrow>
          if re_fence_end line then (push [] x)\<lparr>state := Root\<rparr>
          else push line x
      | Bash \<Rightarrow>
          if re_fence_end line then (push (js ''`'') x)\<lparr>state := Root\<rparr>
          else push line x
      | Other \<Rightarrow>
          if re_fence_end line then (push [] x)\<lparr>state := Root\<rparr>
          else push (js ''// '' @ line) x)"

definition init :: extractor where
  "init = \<lparr>output' = [], state = Root, prevLineIsEmpty = True\<rparr>"

text \<open>The loop over \<^verbatim>\<open>source.split("\n")\<close>, and the extractor as it stands after it.\<close>

definition run :: "jsstring list \<Rightarrow> extractor" where
  "run ls = foldl step init ls"

definition transformMarkdown :: "jsstring \<Rightarrow> jsstring" where
  "transformMarkdown source = join LF (output' (run (split LF source)))"

text \<open>
  The state the extractor is in once it has consumed the whole document, and the fenced
  states among the five.
\<close>

definition finalState :: "jsstring \<Rightarrow> state" where
  "finalState source = state (run (split LF source))"

definition fenced :: "state \<Rightarrow> bool" where
  "fenced st = (st = Js \<or> st = Bash \<or> st = Other)"

text \<open>
  A well-formed document: every opening fence marker line has a matching bare closing
  fence line. A fence marker line opens a block where the extractor meets it in the
  \<open>Root\<close> state (inside a block it is content, or the close); its match is the
  first bare fence line after it, which exists when any bare fence line follows.
\<close>

definition opensFence :: "jsstring list \<Rightarrow> nat \<Rightarrow> bool" where
  "opensFence ls i = (state (run (take i ls)) = Root \<and> re_fence (ls ! i))"

definition closedLater :: "jsstring list \<Rightarrow> nat \<Rightarrow> bool" where
  "closedLater ls i = list_ex re_fence_end (drop (Suc i) ls)"

definition wellFormedLines :: "jsstring list \<Rightarrow> bool" where
  "wellFormedLines ls =
     list_all (\<lambda>i. if opensFence ls i then closedLater ls i else True) [0..<length ls]"

definition wellFormed :: "jsstring \<Rightarrow> bool" where
  "wellFormed source = wellFormedLines (split LF source)"

section \<open>Paths: the functions of Node's path module that yzx.mjs calls\<close>

text \<open>
  \<^verbatim>\<open>basename\<close>, \<^verbatim>\<open>dirname\<close>, \<^verbatim>\<open>extname\<close>, \<^verbatim>\<open>join\<close>, \<^verbatim>\<open>parse\<close> and \<^verbatim>\<open>resolve\<close>
  are imported from \<^verbatim>\<open>"path"\<close>; these are their POSIX variants, each a function of the
  string alone (\<^verbatim>\<open>resolve\<close> also of the working directory).
\<close>

definition SLASH :: "16 word" where "SLASH = 0x2F"
definition DOT :: "16 word" where "DOT = 0x2E"

text \<open>
  \<^verbatim>\<open>basename(path)\<close>: the last component of the path, trailing slashes ignored; empty
  for the empty path and for a path of slashes only.
\<close>

definition basename :: "jsstring \<Rightarrow> jsstring" where
  "basename path =
     rev (takeWhile (\<lambda>c. c \<noteq> SLASH) (dropWhile (\<lambda>c. c = SLASH) (rev path)))"

text \<open>
  \<^verbatim>\<open>extname(path)\<close>: from the last dot of the last component to its end; empty when
  the component has no dot, when its only dot is its first character, and for
  \<^verbatim>\<open>..\<close>. The letter case is the path's.
\<close>

definition extname :: "jsstring \<Rightarrow> jsstring" where
  "extname path =
     (let part = basename path;
          ext = rev (takeWhile (\<lambda>c. c \<noteq> DOT) (rev part))
      in if DOT \<in> set part \<and> Suc (length ext) < length part \<and> part \<noteq> [DOT, DOT]
         then DOT # ext else [])"

definition dirname :: "jsstring \<Rightarrow> jsstring" where
  "dirname path =
     (if path = [] then js ''.''
      else
        (let hasRoot = (hd path = SLASH);
             stop = length (dropWhile (\<lambda>c. c \<noteq> SLASH)
                      (dropWhile (\<lambda>c. c = SLASH) (rev (tl path))))
         in if stop = 0 then (if hasRoot then js ''/'' else js ''.'')
            else if hasRoot \<and> stop = 1 then js ''//''
            else take stop path))"

text \<open>
  \<^verbatim>\<open>normalizeString\<close>, segment by segment: empty segments and \<^verbatim>\<open>.\<close> are dropped,
  \<^verbatim>\<open>..\<close> removes the segment before it (or is kept, above the root of a relative path).
\<close>

definition normalizeSegment :: "bool \<Rightarrow> jsstring list \<Rightarrow> jsstring \<Rightarrow> jsstring list" where
  "normalizeSegment allowAboveRoot res seg =
     (if seg = [] \<or> seg = [DOT] then res
      else if seg = [DOT, DOT] then
        (if res = [] then (if allowAboveRoot then [[DOT, DOT]] else [])
         else if last res = [DOT, DOT] then (if allowAboveRoot then res @ [[DOT, DOT]] else res)
         else butlast res)
      else res @ [seg])"

definition normalizeString :: "jsstring \<Rightarrow> bool \<Rightarrow> jsstring" where
  "normalizeString path allowAboveRoot =
     join SLASH (foldl (normalizeSegment allowAboveRoot) [] (split SLASH path))"

definition normalize :: "jsstring \<Rightarrow> jsstring" where
  "normalize path =
     (if path = [] then js ''.''
      else
        (let isAbsolute = (hd path = SLASH);
             trailingSeparator = (last path = SLASH);
             p = normalizeString path (\<not> isAbsolute)
         in if p = [] then
              (if isAbsolute then js ''/'' else if trailingSeparator then js ''./'' else js ''.'')
            else
              (let p' = (if trailingSeparator then p @ [SLASH] else p)
               in if isAbsolute then SLASH # p' else p')))"

text \<open>\<^verbatim>\<open>join(a, b)\<close>: the non-empty arguments joined by a slash, normalized.\<close>

definition path_join :: "jsstring \<Rightarrow> jsstring \<Rightarrow> jsstring" where
  "path_join a b =
     (if a = [] then (if b = [] then js ''.'' else normalize b)
      else if b = [] then normalize a
      else normalize (a @ SLASH # b))"

text \<open>\<^verbatim>\<open>resolve(path)\<close>, with \<^verbatim>\<open>process.cwd()\<close> as its first argument here.\<close>

definition resolve :: "jsstring \<Rightarrow> jsstring \<Rightarrow> jsstring" where
  "resolve cwd path =
     (let r1 = (if path = [] then [] else path @ [SLASH]);
          abs1 = (if path = [] then False else hd path = SLASH);
          r2 = (if abs1 \<or> cwd = [] then r1 else cwd @ SLASH # r1);
          abs2 = (if abs1 then True else if cwd = [] then False else hd cwd = SLASH);
          p = normalizeString r2 (\<not> abs2)
      in if abs2 then SLASH # p else if p = [] then js ''.'' else p)"

text \<open>The fields \<^verbatim>\<open>dir\<close> and \<^verbatim>\<open>name\<close> of \<^verbatim>\<open>parse(path)\<close>.\<close>

definition parse_dir :: "jsstring \<Rightarrow> jsstring" where
  "parse_dir path =
     (if path = [] then []
      else
        (let isAbsolute = (hd path = SLASH);
             r = dropWhile (\<lambda>c. c \<noteq> SLASH)
                   (dropWhile (\<lambda>c. c = SLASH) (rev (if isAbsolute then tl path else path)))
         in if r = [] then (if isAbsolute then js ''/'' else [])
            else if isAbsolute then SLASH # rev (tl r) else rev (tl r)))"

definition parse_name :: "jsstring \<Rightarrow> jsstring" where
  "parse_name path = (let base = basename path in take (length base - length (extname path)) base)"

text \<open>
  A path component that \<^verbatim>\<open>join\<close> keeps as the last one: not empty, no slash, and
  neither \<^verbatim>\<open>.\<close> nor \<^verbatim>\<open>..\<close>.
\<close>

definition component :: "jsstring \<Rightarrow> bool" where
  "component c = (c \<noteq> [] \<and> SLASH \<notin> set c \<and> c \<noteq> [DOT] \<and> c \<noteq> [DOT, DOT])"

section \<open>The world the resolver runs in\<close>

text \<open>
  The file system is a map from path strings to the text of regular files; UTF-8
  encoding and decoding between \<^verbatim>\<open>readFile\<close>, \<^verbatim>\<open>toString\<close> and \<^verbatim>\<open>writeFile\<close> is
  not modelled. The two globals \<^verbatim>\<open>__filename\<close> and \<^verbatim>\<open>__dirname\<close> are part of the
  state, and so is the trace of what the resolver did: the files it wrote, renamed and
  removed, the directory it made, the compiler run, and each module load together with
  the values of the two globals at that moment.
\<close>

datatype failure =
    IOError
  | ImportRejected jsstring
  | ProcessExit nat
  | UnhandledRejection failure

text \<open>
  \<^verbatim>\<open>process.exit\<close> and a rejection that no handler takes both end the process (an
  unhandled rejection does so from Node 15 on, the default): nothing of the program runs
  after them.
\<close>

fun ended :: "failure \<Rightarrow> bool" where
  "ended (ProcessExit status) = True"
| "ended (UnhandledRejection reason) = True"
| "ended err = False"

datatype event =
    Wrote jsstring
  | Removed jsstring
  | Renamed jsstring jsstring
  | MadeDir jsstring
  | Compiled jsstring
  | Import jsstring "jsstring option" "jsstring option"

record world =
  files :: "jsstring \<rightharpoonup> jsstring"
  g_filename :: "jsstring option"
  g_dirname :: "jsstring option"
  log :: "event list"

text \<open>
  What yzx.mjs takes from outside: \<^verbatim>\<open>process.cwd()\<close>, \<^verbatim>\<open>os.tmpdir()\<close>, the module
  loader behind \<^verbatim>\<open>import(url.pathToFileURL(filepath))\<close> and the \<^verbatim>\<open>tsc\<close> run by
  \<^verbatim>\<open>compile\<close>. The loader sees the files, the path and the two globals, and either
  fulfils (\<open>None\<close>) or rejects with a message; what the loaded module does to the file
  system is outside the resolver and not modelled. \<^verbatim>\<open>tsc\<close> reports success or failure
  and may change the files in any way. \<open>early\<close> is the one fact about timing that the
  resolver depends on: whether a consumer that was started on a path (with the files as
  they were then) and rejects does so before the removal issued right after its start
  has completed.
\<close>

record env =
  cwd :: jsstring
  tmpdir :: jsstring
  loader :: "(jsstring \<rightharpoonup> jsstring) \<Rightarrow> jsstring \<Rightarrow> jsstring option \<Rightarrow> jsstring option
               \<Rightarrow> jsstring option"
  tsc :: "(jsstring \<rightharpoonup> jsstring) \<Rightarrow> jsstring \<Rightarrow> bool \<times> (jsstring \<rightharpoonup> jsstring)"
  early :: "(jsstring \<rightharpoonup> jsstring) \<Rightarrow> jsstring \<Rightarrow> bool"

text \<open>
  A path names a regular file only if it is not empty and does not end in a slash: the
  empty path names nothing, and a path with a trailing slash resolves to a directory or
  fails. The operations of \<^verbatim>\<open>fs/promises\<close> fail exactly when the path is not of that
  kind or (for reading, removing and renaming) the file is missing; permissions and full
  disks are not modelled.
\<close>

definition regular :: "jsstring \<Rightarrow> bool" where
  "regular path = (if path = [] then False else last path \<noteq> SLASH)"

definition emit :: "event \<Rightarrow> world \<Rightarrow> world" where
  "emit ev s = s\<lparr>log := log s @ [ev]\<rparr>"

definition readFile :: "jsstring \<Rightarrow> world \<Rightarrow> failure + jsstring" where
  "readFile path s =
     (if regular path then (case files s path of None \<Rightarrow> Inl IOError | Some data \<Rightarrow> Inr data)
      else Inl IOError)"

definition writeFile :: "jsstring \<Rightarrow> jsstring \<Rightarrow> world \<Rightarrow> (failure + unit) \<times> world" where
  "writeFile path data s =
     (if regular path then (Inr (), emit (Wrote path) (s\<lparr>files := (files s)(path \<mapsto> data)\<rparr>))
      else (Inl IOError, s))"

definition rm :: "jsstring \<Rightarrow> world \<Rightarrow> (failure + unit) \<times> world" where
  "rm path s =
     (case readFile path s of
        Inl err \<Rightarrow> (Inl err, s)
      | Inr _ \<Rightarrow> (Inr (), emit (Removed path) (s\<lparr>files := (files s)(path := None)\<rparr>)))"

definition rename :: "jsstring \<Rightarrow> jsstring \<Rightarrow> world \<Rightarrow> (failure + unit) \<times> world" where
  "rename old new s =
     (case readFile old s of
        Inl err \<Rightarrow> (Inl err, s)
      | Inr data \<Rightarrow>
          if regular new
          then (Inr (), emit (Renamed old new) (s\<lparr>files := ((files s)(old := None))(new \<mapsto> data)\<rparr>))
          else (Inl IOError, s))"

text \<open>\<^verbatim>\<open>fs.mkdtemp(prefix)\<close> makes a directory named by the prefix and six more characters.\<close>

definition mkdtemp :: "jsstring \<Rightarrow> world \<Rightarrow> world" where
  "mkdtemp prefix s = emit (MadeDir prefix) s"

text \<open>
  \<^verbatim>\<open>compile(input)\<close>: runs \<^verbatim>\<open>tsc\<close>; when it fails the process exits with status 1
  inside \<^verbatim>\<open>compile\<close>, which is neither a return nor a throw. The spinner and the
  \<^verbatim>\<open>$.verbose\<close> flag are not modelled.
\<close>

definition compile :: "env \<Rightarrow> jsstring \<Rightarrow> world \<Rightarrow> (failure + unit) \<times> world" where
  "compile e input s =
     (case tsc e (files s) input of
        (ok, files') \<Rightarrow>
          (if ok then Inr () else Inl (ProcessExit 1), emit (Compiled input) (s\<lparr>files := files'\<rparr>)))"

text \<open>\<^verbatim>\<open>await import(url.pathToFileURL(filepath))\<close>, the last line of \<^verbatim>\<open>importPath\<close>.\<close>

definition import_module :: "env \<Rightarrow> jsstring \<Rightarrow> world \<Rightarrow> (failure + unit) \<times> world" where
  "import_module e filepath s =
     (case loader e (files s) filepath (g_filename s) (g_dirname s) of
        None \<Rightarrow> Inr ()
      | Some message \<Rightarrow> Inl (ImportRejected message),
      emit (Import filepath (g_filename s) (g_dirname s)) s)"

text \<open>\<^verbatim>\<open>Object.assign(global, { __filename, __dirname })\<close>\<close>

definition assign_globals :: "jsstring \<Rightarrow> jsstring \<Rightarrow> world \<Rightarrow> world" where
  "assign_globals filename dirname' s = s\<lparr>g_filename := Some filename, g_dirname := Some dirname'\<rparr>"

section \<open>The format resolver: importPath and writeAndImport\<close>

text \<open>
  The two functions call each other. \<^verbatim>\<open>writeAndImport\<close> and the \<^verbatim>\<open>.ts\<close> branch end
  in the same three lines: the consumer is started (\<^verbatim>\<open>let wait = importPath(...)\<close>), the
  removal is awaited (\<^verbatim>\<open>await fs.rm(...)\<close>), and only then is the consumer awaited
  (\<^verbatim>\<open>await wait\<close>, \<^verbatim>\<open>return wait\<close>). Until that last line the promise \<^verbatim>\<open>wait\<close> has no
  handler. The model runs the consumer where it is started, so the consumer sees the file,
  and \<open>rm_then_await\<close> is what follows:
  \<^item> when the consumer has ended the process, nothing follows;
  \<^item> when the consumer rejects before the removal has completed, the rejection is
    unhandled: the process ends and the file is still there;
  \<^item> otherwise the file is removed and the outcome of the consumer is the outcome; when
    the removal throws, the outcome of the consumer is dropped.

  \<open>rank\<close> is the measure of the recursion: 1 for a path that is transformed, 0 for a
  path that is loaded.
\<close>

definition rm_then_await ::
  "env \<Rightarrow> (jsstring \<rightharpoonup> jsstring) \<Rightarrow> jsstring \<Rightarrow> (failure + unit) \<times> world
     \<Rightarrow> (failure + unit) \<times> world" where
  "rm_then_await e started filepath consumer =
     (case consumer of
        (Inl reason, s) \<Rightarrow>
          if ended reason then (Inl reason, s)
          else if early e started filepath then (Inl (UnhandledRejection reason), s)
          else
            (case rm filepath s of
               (Inl err, s') \<Rightarrow> (Inl err, s')
             | (Inr _, s') \<Rightarrow> (Inl reason, s'))
      | (Inr done, s) \<Rightarrow>
          (case rm filepath s of
             (Inl err, s') \<Rightarrow> (Inl err, s')
           | (Inr _, s') \<Rightarrow> (Inr done, s')))"

definition rank :: "jsstring \<Rightarrow> nat" where
  "rank filepath =
     (if extname filepath = [] \<or> extname filepath = js ''.md'' \<or> extname filepath = js ''.ts''
      then 1 else 0)"

function importPath :: "env \<Rightarrow> jsstring \<Rightarrow> jsstring \<Rightarrow> world \<Rightarrow> (failure + unit) \<times> world"
  and writeAndImport ::
    "env \<Rightarrow> jsstring \<Rightarrow> jsstring \<Rightarrow> jsstring \<Rightarrow> world \<Rightarrow> (failure + unit) \<times> world"
where
  "importPath e filepath origin s =
     (let ext = extname filepath in
      if ext = [] then
        (case readFile filepath s of
           Inl err \<Rightarrow> (Inl err, s)
         | Inr script \<Rightarrow>
             writeAndImport e script
               (path_join (dirname filepath) (basename filepath @ js ''.mjs'')) origin s)
      else if ext = js ''.md'' then
        (case readFile filepath s of
           Inl err \<Rightarrow> (Inl err, s)
         | Inr text \<Rightarrow>
             writeAndImport e (transformMarkdown text)
               (path_join (dirname filepath) (basename filepath @ js ''.mjs'')) origin s)
      else if ext = js ''.ts'' then
        (let dir = parse_dir filepath; name = parse_name filepath;
             outFile = path_join dir (name @ js ''.mjs'')
         in case compile e filepath s of
              (Inl err, s1) \<Rightarrow> (Inl err, s1)
            | (Inr _, s1) \<Rightarrow>
                (case rename (path_join dir (name @ js ''.js'')) outFile s1 of
                   (Inl err, s2) \<Rightarrow> (Inl err, s2)
                 | (Inr _, s2) \<Rightarrow>
                     rm_then_await e (files s2) outFile (importPath e outFile filepath s2)))
      else
        (let filename = resolve (cwd e) origin; dirname' = dirname filename
         in import_module e filepath (assign_globals filename dirname' s)))"
| "writeAndImport e script filepath origin s =
     (case writeFile filepath script s of
        (Inl err, s1) \<Rightarrow> (Inl err, s1)
      | (Inr _, s1) \<Rightarrow> rm_then_await e (files s1) filepath (importPath e filepath origin s1))"
  by pat_completeness auto

text \<open>
  \<^verbatim>\<open>scriptFromStdin\<close>: \<open>input\<close> is all of standard input and \<open>random\<close> is
  \<^verbatim>\<open>Math.random().toString(36).substr(2)\<close>. The default \<^verbatim>\<open>origin = filepath\<close> of
  \<^verbatim>\<open>importPath\<close> is written out where \<^verbatim>\<open>importPath(filepath)\<close> is called.
\<close>

definition scriptFromStdin ::
  "env \<Rightarrow> bool \<Rightarrow> jsstring \<Rightarrow> jsstring \<Rightarrow> world \<Rightarrow> (failure + bool) \<times> world" where
  "scriptFromStdin e isTTY input random s =
     (if isTTY then (Inr False, s)
      else
        (let script = input in
         if 0 < length script then
           (let filepath = path_join (tmpdir e) (random @ js ''.mjs'');
                s1 = mkdtemp filepath s
            in case writeAndImport e script filepath (path_join (cwd e) (js ''stdin.mjs'')) s1 of
                 (Inl err, s2) \<Rightarrow> (Inl err, s2)
               | (Inr _, s2) \<Rightarrow> (Inr True, s2))
         else (Inr False, s)))"

section \<open>What a resolution leaves behind\<close>

text \<open>
  The events a run added to the trace; the artifacts among them (a file written by
  \<^verbatim>\<open>writeAndImport\<close>, the target of the rename in the \<^verbatim>\<open>.ts\<close> branch); the event of
  loading a path with the globals bound to an origin.
\<close>

definition news :: "world \<Rightarrow> world \<Rightarrow> event list" where
  "news s s' = drop (length (log s)) (log s')"

fun artifact :: "event \<Rightarrow> jsstring list" where
  "artifact (Wrote path) = [path]"
| "artifact (Renamed old new) = [new]"
| "artifact ev = []"

definition artifacts :: "event list \<Rightarrow> jsstring list" where
  "artifacts evs = concat (map artifact evs)"

fun isImport :: "event \<Rightarrow> bool" where
  "isImport (Import path f d) = True"
| "isImport ev = False"

definition loadedAs :: "env \<Rightarrow> jsstring \<Rightarrow> jsstring \<Rightarrow> event" where
  "loadedAs e filepath origin =
     Import filepath (Some (resolve (cwd e) origin)) (Some (dirname (resolve (cwd e) origin)))"

text \<open>
  At every module load among the events, \<^verbatim>\<open>__filename\<close> is the resolved origin and
  \<^verbatim>\<open>__dirname\<close> its directory.
\<close>

fun boundTo :: "jsstring \<Rightarrow> event \<Rightarrow> bool" where
  "boundTo filename (Import path f d) = (f = Some filename \<and> d = Some (dirname filename))"
| "boundTo filename ev = True"

definition originBound :: "env \<Rightarrow> jsstring \<Rightarrow> event list \<Rightarrow> bool" where
  "originBound e origin evs = list_all (boundTo (resolve (cwd e) origin)) evs"

section \<open>An environment to run the resolver in\<close>

text \<open>
  A loader that takes a module from a file that exists and has one of the extensions
  Node loads, a compiler that emits the source text next to its input, and a file system
  with one file of each kind. A load that fails does so at once, before a removal issued
  after its start has completed.
\<close>

definition node_loader ::
  "(jsstring \<rightharpoonup> jsstring) \<Rightarrow> jsstring \<Rightarrow> jsstring option \<Rightarrow> jsstring option \<Rightarrow> jsstring option" where
  "node_loader fs path f d =
     (case fs path of
        None \<Rightarrow> Some (js ''ERR_MODULE_NOT_FOUND'')
      | Some source \<Rightarrow>
          if extname path = js ''.mjs'' \<or> extname path = js ''.js'' \<or> extname path = js ''.cjs''
          then None else Some (js ''ERR_UNKNOWN_FILE_EXTENSION''))"

definition emitting_tsc :: "(jsstring \<rightharpoonup> jsstring) \<Rightarrow> jsstring \<Rightarrow> bool \<times> (jsstring \<rightharpoonup> jsstring)" where
  "emitting_tsc fs input =
     (case fs input of
        None \<Rightarrow> (False, fs)
      | Some source \<Rightarrow>
          (True, fs(path_join (parse_dir input) (parse_name input @ js ''.js'') \<mapsto> source)))"

definition demo_env :: env where
  "demo_env =
     \<lparr>cwd = js ''/home/u'', tmpdir = js ''/tmp'', loader = node_loader, tsc = emitting_tsc,
      early = (\<lambda>fs path. True)\<rparr>"

definition demo_world :: world where
  "demo_world =
     \<lparr>files = map_of
        [(js ''/a/b.js'', js ''await $`ls`''),
         (js ''/a/b.xyz'', js ''await $`ls`''),
         (js ''/a/run'', js ''await $`ls`''),
         (js ''/a/t.ts'', js ''await $`ls`''),
         (js ''/a/README.md'', js ''```sh\<newline>ls\<newline>```''),
         (js ''/a/README.MD'', js ''```sh\<newline>ls\<newline>```'')],
      g_filename = None, g_dirname = None, log = []\<rparr>"

text \<open>
  The same loader, but one that evaluates the module: the text \<^verbatim>\<open>exit\<close> names a
  variable that is not defined, so loading it throws a ReferenceError. And a file system
  where the extensionless file \<^verbatim>\<open>/a/run\<close> holds that text.
\<close>

definition evaluating_loader ::
  "(jsstring \<rightharpoonup> jsstring) \<Rightarrow> jsstring \<Rightarrow> jsstring option \<Rightarrow> jsstring option \<Rightarrow> jsstring option" where
  "evaluating_loader fs path f d =
     (if fs path = Some (js ''exit'') then Some (js ''ReferenceError: exit is not defined'')
      else node_loader fs path f d)"

definition evaluating_env :: env where
  "evaluating_env = demo_env\<lparr>loader := evaluating_loader\<rparr>"

definition failing_world :: world where
  "failing_world = demo_world\<lparr>files := (files demo_world)(js ''/a/run'' \<mapsto> js ''exit'')\<rparr>"

section \<open>Evaluation\<close>

lemmas chars = LF_def CR_def LS_def PS_def TAB_def SPACE_def

section \<open>Lines in, lines out\<close>

lemma split_not_Nil [simp]: "split sep xs \<noteq> []"
  by (induction xs) (auto simp: Let_def)

lemma split_free: "l \<in> set (split sep xs) \<Longrightarrow> sep \<notin> set l"
proof (induction xs arbitrary: l)
  case Nil
  then show ?case by simp
next
  case (Cons c cs)
  obtain r rs where r: "split sep cs = r # rs"
    by (cases "split sep cs") auto
  show ?case
    using Cons r by (auto simp: Let_def split: if_splits)
qed

lemma split_single: "sep \<notin> set x \<Longrightarrow> split sep x = [x]"
  by (induction x) auto

lemma split_append_sep: "sep \<notin> set x \<Longrightarrow> split sep (x @ sep # zs) = x # split sep zs"
  by (induction x) auto

lemma split_join:
  "ls \<noteq> [] \<Longrightarrow> list_all (\<lambda>l. sep \<notin> set l) ls \<Longrightarrow> split sep (join sep ls) = ls"
proof (induction sep ls rule: join.induct)
  case (1 sep)
  then show ?case by simp
next
  case (2 sep x)
  then show ?case by (simp add: split_single)
next
  case (3 sep x y ys)
  then show ?case by (simp add: split_append_sep)
qed

lemma length_step: "length (output' (step x line)) = Suc (length (output' x))"
  by (simp add: step_def push_def split: state.split)

lemma length_foldl_step:
  "length (output' (foldl step x ls)) = length (output' x) + length ls"
  by (induction ls arbitrary: x) (simp_all add: length_step)

lemma LF_free_literals:
  "LF \<notin> set (js ''// '')" "LF \<notin> set (js ''await $`'')" "LF \<notin> set (js ''`'')"
  by (simp_all add: js_def LF_def)

lemma LF_free_step:
  assumes "list_all (\<lambda>l. LF \<notin> set l) (output' x)" and "LF \<notin> set line"
  shows "list_all (\<lambda>l. LF \<notin> set l) (output' (step x line))"
  using assms by (simp add: step_def push_def LF_free_literals split: state.split)

lemma LF_free_foldl_step:
  assumes "list_all (\<lambda>l. LF \<notin> set l) (output' x)" and "list_all (\<lambda>l. LF \<notin> set l) ls"
  shows "list_all (\<lambda>l. LF \<notin> set l) (output' (foldl step x ls))"
  using assms by (induction ls arbitrary: x) (simp_all add: LF_free_step)

lemma LF_free_run_split: "list_all (\<lambda>l. LF \<notin> set l) (output' (run (split LF source)))"
  unfolding run_def
  by (rule LF_free_foldl_step) (simp_all add: init_def list_all_iff split_free)

lemma length_run: "length (output' (run ls)) = length ls"
  by (simp add: run_def length_foldl_step init_def)

text \<open>
  C2. \<open>transformMarkdown\<close> is a function of its argument alone, defined on every string,
  and it emits one output line for each input line: splitting its result at the line
  feeds gives as many lines as splitting the input does.
\<close>

theorem transformMarkdown_line_count:
  "length (split LF (transformMarkdown source)) = length (split LF source)"
proof -
  let ?out = "output' (run (split LF source))"
  have len: "length ?out = length (split LF source)"
    by (rule length_run)
  then have "?out \<noteq> []"
    by (metis length_0_conv split_not_Nil)
  then have "split LF (join LF ?out) = ?out"
    by (rule split_join) (rule LF_free_run_split)
  then show ?thesis
    by (simp add: transformMarkdown_def len)
qed

theorem transformMarkdown_line_count_witness:
  "length (split LF (transformMarkdown (js ''a\<newline>\<newline>    b\<newline>```js\<newline>c''))) = 5"
proof -
  have "length (split LF (js ''a\<newline>\<newline>    b\<newline>```js\<newline>c'')) = 5"
    by code_simp
  then show ?thesis
    using transformMarkdown_line_count [of "js ''a\<newline>\<newline>    b\<newline>```js\<newline>c''"] by simp
qed

section \<open>Fence balance\<close>

lemma run_snoc: "run (ls @ [l]) = step (run ls) l"
  by (simp add: run_def)

lemma step_into_fence:
  assumes "fenced (state (step x l))"
  shows "(state x = Root \<and> re_fence l) \<or> (state (step x l) = state x \<and> \<not> re_fence_end l)"
proof (cases "state x")
  case Root
  have "re_fence_js l \<Longrightarrow> re_fence l" "re_fence_sh l \<Longrightarrow> re_fence l"
    by (auto simp: re_fence_js_def re_fence_sh_def re_fence_def js_def lineTerminator_def chars)
  with Root assms show ?thesis
    by (auto simp: step_def push_def fenced_def split: if_splits)
next
  case Tab
  with assms show ?thesis
    by (auto simp: step_def push_def fenced_def split: if_splits)
next
  case Js
  with assms show ?thesis
    by (auto simp: step_def push_def fenced_def split: if_splits)
next
  case Bash
  with assms show ?thesis
    by (auto simp: step_def push_def fenced_def split: if_splits)
next
  case Other
  with assms show ?thesis
    by (auto simp: step_def push_def fenced_def split: if_splits)
qed

lemma fenced_unclosed:
  "fenced (state (run ls)) \<Longrightarrow> \<exists>i<length ls. opensFence ls i \<and> \<not> closedLater ls i"
proof (induction ls rule: rev_induct)
  case Nil
  then show ?case by (simp add: run_def init_def fenced_def)
next
  case (snoc l ls)
  from snoc.prems have f: "fenced (state (step (run ls) l))"
    by (simp add: run_snoc)
  from step_into_fence [OF f] show ?case
  proof
    assume "state (run ls) = Root \<and> re_fence l"
    then have "opensFence (ls @ [l]) (length ls) \<and> \<not> closedLater (ls @ [l]) (length ls)"
      by (simp add: opensFence_def closedLater_def)
    then have "length ls < length (ls @ [l]) \<and> opensFence (ls @ [l]) (length ls)
        \<and> \<not> closedLater (ls @ [l]) (length ls)"
      by simp
    then show ?thesis by blast
  next
    assume a: "state (step (run ls) l) = state (run ls) \<and> \<not> re_fence_end l"
    with f have "fenced (state (run ls))" by simp
    then obtain i where i: "i < length ls" "opensFence ls i" "\<not> closedLater ls i"
      using snoc.IH by blast
    then have "opensFence (ls @ [l]) i \<and> \<not> closedLater (ls @ [l]) i"
      using a by (simp add: opensFence_def closedLater_def nth_append)
    with i(1) have "i < length (ls @ [l]) \<and> opensFence (ls @ [l]) i \<and> \<not> closedLater (ls @ [l]) i"
      by simp
    then show ?thesis by blast
  qed
qed

lemma wf_closed: "wellFormedLines ls \<Longrightarrow> i < length ls \<Longrightarrow> opensFence ls i \<Longrightarrow> closedLater ls i"
  by (auto simp: wellFormedLines_def list_all_iff split: if_splits)

text \<open>
  C7, amended. After a well-formed document the extractor is in the \<open>Root\<close> state
  or in the \<open>Tab\<close> state, never in \<open>Js\<close>, \<open>Bash\<close> or \<open>Other\<close>: an indented block has
  no closing line, so a document may end inside one.
\<close>

theorem fence_balance:
  "wellFormed source \<Longrightarrow> finalState source = Root \<or> finalState source = Tab"
proof -
  assume wf: "wellFormed source"
  have "\<not> fenced (finalState source)"
  proof
    assume "fenced (finalState source)"
    then obtain i where "i < length (split LF source)" "opensFence (split LF source) i"
      "\<not> closedLater (split LF source) i"
      using fenced_unclosed unfolding finalState_def by blast
    with wf show False
      using wf_closed unfolding wellFormed_def by blast
  qed
  then show ?thesis
    by (cases "finalState source") (simp_all add: fenced_def)
qed

text \<open>
  C7, as the specification states it: a well-formed document leaves the extractor in
  the \<open>Root\<close> state. The one-line document \<^verbatim>\<open>"    x"\<close> has no fence at all and
  leaves it in the \<open>Tab\<close> state.
\<close>

theorem fence_balance_counterexample:
  "wellFormed (js ''    x'') \<and> finalState (js ''    x'') = Tab"
  by code_simp

theorem fence_balance_witness:
  "wellFormed (js ''a\<newline>```sh\<newline>echo hi\<newline>```\<newline>\<newline>    b'') \<and> finalState (js ''a\<newline>```sh\<newline>echo hi\<newline>```\<newline>\<newline>    b'') = Tab"
proof -
  have wf: "wellFormed (js ''a\<newline>```sh\<newline>echo hi\<newline>```\<newline>\<newline>    b'')"
    by code_simp
  have "finalState (js ''a\<newline>```sh\<newline>echo hi\<newline>```\<newline>\<newline>    b'') \<noteq> Root"
    by code_simp
  with fence_balance [OF wf] wf show ?thesis by simp
qed

section \<open>Scenarios\<close>

text \<open>
  C5. For the input \<^verbatim>\<open>```sh\necho hi\n```\<close> the extractor returns the command-block
  opener \<^verbatim>\<open>await $`\<close>, the body line as it is, and a closing backtick for the bare
  closing fence.
\<close>

theorem transformMarkdown_sh_fence:
  "transformMarkdown (js ''```sh\<newline>echo hi\<newline>```'') = js ''await $`\<newline>echo hi\<newline>`''"
  by code_simp

text \<open>
  C4, as the specification states it: the four-line input of prose, blank line, indented
  line and prose comes out with the blank line empty. The extractor does not return that
  text.
\<close>

theorem transformMarkdown_blank_prose_counterexample:
  "transformMarkdown (js ''Some text\<newline>\<newline>    indented code\<newline>more text'')
     \<noteq> js ''// Some text\<newline>\<newline>    indented code\<newline>// more text''"
  by code_simp

text \<open>
  C4, amended. In the \<open>Root\<close> state every line that opens no block is prefixed with
  \<^verbatim>\<open>// \<close>, the empty line too: the blank prose line comes out as \<^verbatim>\<open>// \<close>, the
  indented line as it is, and the two prose lines as comments.
\<close>

theorem transformMarkdown_blank_prose:
  "transformMarkdown (js ''Some text\<newline>\<newline>    indented code\<newline>more text'')
     = js ''// Some text\<newline>// \<newline>    indented code\<newline>// more text''"
  by code_simp

text \<open>
  C6, at the input \<^verbatim>\<open>"    a\nb\n    c"\<close>. The third line is met in the \<open>Root\<close>
  state and the line before it is \<^verbatim>\<open>b\<close>, not blank; the claim has it come out as a
  comment. \<^verbatim>\<open>prevLineIsEmpty\<close> is written only by the last branch of the \<open>Root\<close>
  case, so it still holds its initial \<open>True\<close>: the line comes out as it is and opens an
  indented block.
\<close>

theorem transformMarkdown_stale_prevLineIsEmpty:
  "transformMarkdown (js ''    a\<newline>b\<newline>    c'') = js ''    a\<newline>// b\<newline>    c''
   \<and> finalState (js ''    a\<newline>b\<newline>    c'') = Tab"
  by code_simp

section \<open>Paths and the termination of the resolver\<close>

lemma split_append_sep_gen: "split sep (xs @ sep # ys) = split sep xs @ split sep ys"
proof (induction xs)
  case Nil
  show ?case by simp
next
  case (Cons c xs)
  have "split sep xs \<noteq> []" by simp
  then show ?case using Cons by (simp add: Let_def)
qed

lemma join_snoc: "join sep (xs @ [c]) = (if xs = [] then c else join sep xs @ sep # c)"
  by (induction sep xs rule: join.induct) auto

lemma basename_component:
  assumes "c \<noteq> []" and "SLASH \<notin> set c"
  shows "basename c = c" and "basename (pre @ SLASH # c) = c"
proof -
  obtain x xs where r: "rev c = x # xs" using assms(1) by (cases "rev c") auto
  have x: "x \<noteq> SLASH" using r assms(2) by (metis list.set_intros(1) set_rev)
  have tw: "takeWhile (\<lambda>c. c \<noteq> SLASH) (rev c @ zs) = rev c @ takeWhile (\<lambda>c. c \<noteq> SLASH) zs" for zs
    by (rule takeWhile_append2) (use assms(2) in auto)
  have "takeWhile (\<lambda>c. c \<noteq> SLASH) (rev c) = rev c"
    using tw [of "[]"] by simp
  then show "basename c = c"
    using r x by (simp add: basename_def)
  show "basename (pre @ SLASH # c) = c"
    using r x tw [of "SLASH # rev pre"] by (simp add: basename_def)
qed

lemma basename_no_slash: "SLASH \<notin> set (basename p)"
  unfolding basename_def by (auto dest: set_takeWhileD)

lemma regular_basename: "regular p \<Longrightarrow> basename p \<noteq> []"
proof -
  assume "regular p"
  then obtain x xs where "rev p = x # xs" "x \<noteq> SLASH"
    by (cases p rule: rev_cases) (auto simp: regular_def split: if_splits)
  then show ?thesis by (simp add: basename_def)
qed

lemma extname_mjs:
  assumes "basename p = b @ js ''.mjs''" and "b \<noteq> []"
  shows "extname p = js ''.mjs''"
  using assms by (simp add: extname_def Let_def js_def DOT_def)

lemma component_ends: "component c \<Longrightarrow> last c \<noteq> SLASH \<and> hd c \<noteq> SLASH"
  by (metis component_def last_in_set hd_in_set)

lemma normalizeString_component:
  assumes "component c"
  shows "normalizeString c b = c"
    and "normalizeString (a @ SLASH # c) b = c \<or> (\<exists>pre. normalizeString (a @ SLASH # c) b = pre @ SLASH # c)"
proof -
  have c: "split SLASH c = [c]"
    using assms by (simp add: component_def split_single)
  have seg: "normalizeSegment b res c = res @ [c]" for res
    using assms by (simp add: normalizeSegment_def component_def)
  show "normalizeString c b = c"
    by (simp add: normalizeString_def c seg)
  have "normalizeString (a @ SLASH # c) b
         = join SLASH (foldl (normalizeSegment b) [] (split SLASH a) @ [c])"
    by (simp add: normalizeString_def split_append_sep_gen c seg)
  then show "normalizeString (a @ SLASH # c) b = c \<or> (\<exists>pre. normalizeString (a @ SLASH # c) b = pre @ SLASH # c)"
    by (auto simp: join_snoc)
qed

lemma normalize_component:
  assumes "component c"
  shows "normalize c = c"
    and "normalize (a @ SLASH # c) = c \<or> (\<exists>pre. normalize (a @ SLASH # c) = pre @ SLASH # c)"
proof -
  have c: "c \<noteq> []" "last c \<noteq> SLASH" "hd c \<noteq> SLASH"
    using assms component_ends by (auto simp: component_def)
  show "normalize c = c"
    using c by (simp add: normalize_def Let_def normalizeString_component(1) [OF assms])
  let ?q = "a @ SLASH # c"
  let ?n = "normalizeString ?q (hd ?q \<noteq> SLASH)"
  have n: "?n = c \<or> (\<exists>pre. ?n = pre @ SLASH # c)"
    by (rule normalizeString_component(2) [OF assms])
  then have ne: "?n \<noteq> []" using c by auto
  have nq: "normalize ?q = (if hd ?q = SLASH then SLASH # ?n else ?n)"
    using c ne by (simp add: normalize_def Let_def)
  show "normalize ?q = c \<or> (\<exists>pre. normalize ?q = pre @ SLASH # c)"
  proof (cases "hd ?q = SLASH")
    case False
    with n nq show ?thesis by simp
  next
    case True
    from n show ?thesis
    proof
      assume "?n = c"
      then have "normalize ?q = [] @ SLASH # c" using nq True by simp
      then show ?thesis by blast
    next
      assume "\<exists>pre. ?n = pre @ SLASH # c"
      then obtain pre where "?n = pre @ SLASH # c" by blast
      then have "normalize ?q = (SLASH # pre) @ SLASH # c" using nq True by simp
      then show ?thesis by blast
    qed
  qed
qed

lemma path_join_component:
  assumes "component c"
  shows "path_join a c = c \<or> (\<exists>pre. path_join a c = pre @ SLASH # c)"
proof -
  have "c \<noteq> []" using assms by (simp add: component_def)
  then show ?thesis
    using normalize_component [OF assms] by (simp add: path_join_def)
qed

lemma basename_path_join: "component c \<Longrightarrow> basename (path_join a c) = c"
  using path_join_component [of c a] basename_component [of c]
  by (auto simp: component_def)

lemma regular_path_join: "component c \<Longrightarrow> regular (path_join a c)"
  using path_join_component [of c a] component_ends [of c]
  by (auto simp: component_def regular_def)

lemma component_mjs: "SLASH \<notin> set b \<Longrightarrow> component (b @ js ''.mjs'')"
  by (auto simp: component_def js_def SLASH_def DOT_def)

lemma extname_path_join_mjs:
  assumes "b \<noteq> []" and "SLASH \<notin> set b"
  shows "extname (path_join a (b @ js ''.mjs'')) = js ''.mjs''"
  by (rule extname_mjs [OF basename_path_join [OF component_mjs [OF assms(2)]] assms(1)])

lemma parse_name_ts:
  assumes "extname p = js ''.ts''"
  shows "parse_name p \<noteq> []" and "SLASH \<notin> set (parse_name p)"
proof -
  have "Suc (length (rev (takeWhile (\<lambda>c. c \<noteq> DOT) (rev (basename p))))) < length (basename p)"
    using assms by (auto simp: extname_def Let_def js_def split: if_splits)
  moreover have "length (extname p) \<le> Suc (length (rev (takeWhile (\<lambda>c. c \<noteq> DOT) (rev (basename p)))))"
    by (simp add: extname_def Let_def)
  ultimately have "length (extname p) < length (basename p)" by linarith
  then show "parse_name p \<noteq> []"
    by (auto simp: parse_name_def Let_def)
  show "SLASH \<notin> set (parse_name p)"
    using basename_no_slash [of p] by (auto simp: parse_name_def Let_def dest: in_set_takeD)
qed

lemma rank_mjs: "extname p = js ''.mjs'' \<Longrightarrow> rank p = 0"
  by (simp add: rank_def js_def)

lemma readFile_regular: "readFile p s = Inr x \<Longrightarrow> regular p"
  by (simp add: readFile_def split: if_splits)

lemma rank_mjs_path:
  assumes "regular filepath"
  shows "rank (path_join (dirname filepath) (basename filepath @ js ''.mjs'')) = 0"
  by (rule rank_mjs [OF extname_path_join_mjs [OF regular_basename [OF assms] basename_no_slash]])

lemma rank_outFile:
  assumes "extname filepath = js ''.ts''"
  shows "rank (path_join (parse_dir filepath) (parse_name filepath @ js ''.mjs'')) = 0"
  by (rule rank_mjs [OF extname_path_join_mjs [OF parse_name_ts [OF assms]]])

lemma rank_transforming:
  "extname filepath = [] \<Longrightarrow> rank filepath = 1"
  "extname filepath = js ''.md'' \<Longrightarrow> rank filepath = 1"
  "extname filepath = js ''.ts'' \<Longrightarrow> rank filepath = 1"
  by (simp_all add: rank_def)

termination importPath
proof (relation "measure (\<lambda>x. case x of
            Inl (e, filepath, origin, s) \<Rightarrow> 2 * rank filepath
          | Inr (e, script, filepath, origin, s) \<Rightarrow> 2 * rank filepath + 1)", goal_cases)
  case 1
  show ?case by simp
next
  case (2 e filepath origin s ext scr)
  then have "extname filepath = []" "regular filepath"
    by (auto dest: readFile_regular)
  then show ?case
    by (simp add: rank_transforming rank_mjs_path)
next
  case (3 e filepath origin s ext txt0)
  then have "extname filepath = js ''.md''" "regular filepath"
    by (auto dest: readFile_regular)
  then show ?case
    by (simp add: rank_transforming rank_mjs_path)
next
  case 4
  then show ?case
    by (simp add: rank_transforming(3) [OF sym] rank_outFile [OF sym])
next
  case 5
  show ?case by simp
qed


section \<open>One call of importPath, by the extension of its path\<close>

declare importPath.simps [simp del] writeAndImport.simps [simp del]

lemmas fs_defs = readFile_def writeFile_def rm_def rename_def emit_def import_module_def
  assign_globals_def compile_def mkdtemp_def

lemma importPath_load:
  assumes "extname filepath \<noteq> []" "extname filepath \<noteq> js ''.md''" "extname filepath \<noteq> js ''.ts''"
  shows "importPath e filepath origin s =
           import_module e filepath
             (assign_globals (resolve (cwd e) origin) (dirname (resolve (cwd e) origin)) s)"
  using assms by (subst importPath.simps) (simp add: Let_def)

lemma mjs_not_transformed:
  assumes "extname t = js ''.mjs''"
  shows "extname t \<noteq> []" "extname t \<noteq> js ''.md''" "extname t \<noteq> js ''.ts''"
  using assms by (simp_all add: js_def)

lemma news_append: "log s' = log s @ evs \<Longrightarrow> news s s' = evs"
  by (simp add: news_def)

lemma mjs_path:
  assumes "regular filepath"
  shows "extname (path_join (dirname filepath) (basename filepath @ js ''.mjs'')) = js ''.mjs''"
    and "regular (path_join (dirname filepath) (basename filepath @ js ''.mjs''))"
  by (rule extname_path_join_mjs [OF regular_basename [OF assms] basename_no_slash])
     (rule regular_path_join [OF component_mjs [OF basename_no_slash]])

lemma outFile_path:
  assumes "extname filepath = js ''.ts''"
  shows "extname (path_join (parse_dir filepath) (parse_name filepath @ js ''.mjs'')) = js ''.mjs''"
    and "regular (path_join (parse_dir filepath) (parse_name filepath @ js ''.mjs''))"
  by (rule extname_path_join_mjs [OF parse_name_ts [OF assms]])
     (rule regular_path_join [OF component_mjs [OF parse_name_ts(2) [OF assms]]])

lemma ext_distinct:
  "js ''.md'' \<noteq> []" "js ''.ts'' \<noteq> []" "js ''.ts'' \<noteq> js ''.md''"
  by (simp_all add: js_def)

lemma snd_import_module:
  "snd (import_module e t (assign_globals (resolve (cwd e) origin) (dirname (resolve (cwd e) origin)) s))
     = s\<lparr>g_filename := Some (resolve (cwd e) origin),
          g_dirname := Some (dirname (resolve (cwd e) origin)),
          log := log s @ [loadedAs e t origin]\<rparr>"
  by (simp add: fs_defs loadedAs_def)

lemma importPath_loaded:
  assumes "extname filepath \<noteq> []" "extname filepath \<noteq> js ''.md''" "extname filepath \<noteq> js ''.ts''"
  shows "log (snd (importPath e filepath origin s)) = log s @ [loadedAs e filepath origin]"
    and "files (snd (importPath e filepath origin s)) = files s"
  by (simp_all add: importPath_load [OF assms] snd_import_module)

text \<open>The removal adds at most its own event to what the consumer left.\<close>

lemma log_rm: "log (snd (rm t s)) = log s \<or> log (snd (rm t s)) = log s @ [Removed t]"
  by (simp add: rm_def emit_def split: sum.split)

lemma log_rm_then_await:
  "log (snd (rm_then_await e started t x)) = log (snd x)
   \<or> log (snd (rm_then_await e started t x)) = log (snd x) @ [Removed t]"
proof -
  obtain wait s where x: "x = (wait, s)"
    by (cases x)
  have "snd (rm_then_await e started t x) = s \<or> snd (rm_then_await e started t x) = snd (rm t s)"
    by (cases wait; cases "rm t s"; cases "fst (rm t s)") (auto simp: x rm_then_await_def)
  then show ?thesis
    using log_rm [of t s] by (auto simp: x)
qed

lemma log_writeAndImport:
  assumes "regular t"
  shows "log (snd (writeAndImport e script t origin s))
           = log (snd (importPath e t origin (emit (Wrote t) (s\<lparr>files := (files s)(t \<mapsto> script)\<rparr>))))
       \<or> log (snd (writeAndImport e script t origin s))
           = log (snd (importPath e t origin (emit (Wrote t) (s\<lparr>files := (files s)(t \<mapsto> script)\<rparr>))))
               @ [Removed t]"
proof -
  let ?w = "emit (Wrote t) (s\<lparr>files := (files s)(t \<mapsto> script)\<rparr>)"
  have "writeAndImport e script t origin s
      = rm_then_await e (files ?w) t (importPath e t origin ?w)"
    using assms by (subst writeAndImport.simps) (simp add: writeFile_def)
  then show ?thesis
    using log_rm_then_await [of e "files ?w" t "importPath e t origin ?w"] by simp
qed

lemma log_writeAndImport_load:
  assumes t: "extname t = js ''.mjs''" and r: "regular t"
  shows "log (snd (writeAndImport e script t origin s)) = log s @ [Wrote t, loadedAs e t origin]
       \<or> log (snd (writeAndImport e script t origin s))
           = log s @ [Wrote t, loadedAs e t origin, Removed t]"
  using log_writeAndImport [OF r, of e script origin s]
  by (simp add: importPath_loaded(1) [OF mjs_not_transformed [OF t]] emit_def)

lemma importPath_written:
  assumes ext: "extname filepath = [] \<or> extname filepath = js ''.md''"
  shows "log (snd (importPath e filepath origin s)) = log s
       \<or> (\<exists>t. extname t = js ''.mjs'' \<and>
              (log (snd (importPath e filepath origin s)) = log s @ [Wrote t, loadedAs e t origin]
               \<or> log (snd (importPath e filepath origin s))
                   = log s @ [Wrote t, loadedAs e t origin, Removed t]))"
proof (cases "readFile filepath s")
  case (Inl err)
  with ext have "snd (importPath e filepath origin s) = s"
    by (subst importPath.simps) (auto simp: Let_def ext_distinct)
  then show ?thesis by simp
next
  case (Inr data)
  let ?t = "path_join (dirname filepath) (basename filepath @ js ''.mjs'')"
  note t = mjs_path [OF readFile_regular [OF Inr]]
  have "importPath e filepath origin s =
      writeAndImport e (if extname filepath = [] then data else transformMarkdown data) ?t origin s"
    using ext Inr by (subst importPath.simps) (auto simp: Let_def ext_distinct)
  then have "log (snd (importPath e filepath origin s)) = log s @ [Wrote ?t, loadedAs e ?t origin]
       \<or> log (snd (importPath e filepath origin s))
           = log s @ [Wrote ?t, loadedAs e ?t origin, Removed ?t]"
    using log_writeAndImport_load [OF t] by simp
  with t(1) show ?thesis by blast
qed

lemma importPath_compiled:
  assumes ext: "extname filepath = js ''.ts''"
  shows "log (snd (importPath e filepath origin s)) = log s @ [Compiled filepath]
       \<or> (\<exists>old t. extname t = js ''.mjs'' \<and>
              (log (snd (importPath e filepath origin s))
                 = log s @ [Compiled filepath, Renamed old t, loadedAs e t filepath]
               \<or> log (snd (importPath e filepath origin s))
                 = log s @ [Compiled filepath, Renamed old t, loadedAs e t filepath, Removed t]))"
proof -
  let ?t = "path_join (parse_dir filepath) (parse_name filepath @ js ''.mjs'')"
  let ?old = "path_join (parse_dir filepath) (parse_name filepath @ js ''.js'')"
  note t = outFile_path [OF ext]
  obtain ok files' where tsc: "tsc e (files s) filepath = (ok, files')"
    by (cases "tsc e (files s) filepath")
  let ?s1 = "emit (Compiled filepath) (s\<lparr>files := files'\<rparr>)"
  have c: "compile e filepath s = (if ok then Inr () else Inl (ProcessExit 1), ?s1)"
    by (simp add: compile_def tsc)
  have unfold: "importPath e filepath origin s =
      (case compile e filepath s of
         (Inl err, s1) \<Rightarrow> (Inl err, s1)
       | (Inr _, s1) \<Rightarrow>
           (case rename ?old ?t s1 of
              (Inl err, s2) \<Rightarrow> (Inl err, s2)
            | (Inr _, s2) \<Rightarrow> rm_then_await e (files s2) ?t (importPath e ?t filepath s2)))"
    using ext by (subst importPath.simps) (simp add: Let_def ext_distinct)
  show ?thesis
  proof (cases "ok \<and> regular ?old \<and> files' ?old \<noteq> None")
    case False
    then have "snd (importPath e filepath origin s) = ?s1"
      using t(2) by (auto simp: unfold c rename_def readFile_def emit_def split: option.splits)
    then show ?thesis by (simp add: emit_def)
  next
    case True
    then obtain data where data: "files' ?old = Some data" by auto
    let ?s2 = "emit (Renamed ?old ?t) (?s1\<lparr>files := ((files ?s1)(?old := None))(?t \<mapsto> data)\<rparr>)"
    have r: "rename ?old ?t ?s1 = (Inr (), ?s2)"
      using True data t(2) by (simp add: rename_def readFile_def emit_def)
    have l2: "log ?s2 = log s @ [Compiled filepath, Renamed ?old ?t]"
      by (simp add: emit_def)
    have "importPath e filepath origin s
        = rm_then_await e (files ?s2) ?t (importPath e ?t filepath ?s2)"
      using True by (simp add: unfold c r)
    then have "log (snd (importPath e filepath origin s)) = log (snd (importPath e ?t filepath ?s2))
        \<or> log (snd (importPath e filepath origin s))
            = log (snd (importPath e ?t filepath ?s2)) @ [Removed ?t]"
      using log_rm_then_await [of e "files ?s2" ?t "importPath e ?t filepath ?s2"] by simp
    then have "log (snd (importPath e filepath origin s))
          = log s @ [Compiled filepath, Renamed ?old ?t, loadedAs e ?t filepath]
        \<or> log (snd (importPath e filepath origin s))
          = log s @ [Compiled filepath, Renamed ?old ?t, loadedAs e ?t filepath, Removed ?t]"
      by (simp add: importPath_loaded(1) [OF mjs_not_transformed [OF t(1)]] l2)
    with t(1) show ?thesis by blast
  qed
qed

lemma importPath_not_compiled:
  assumes "extname filepath \<noteq> js ''.ts''"
  shows "news s (snd (importPath e filepath origin s)) = []
   \<or> news s (snd (importPath e filepath origin s)) = [loadedAs e filepath origin]
   \<or> (\<exists>t. extname t = js ''.mjs'' \<and> extname filepath \<noteq> js ''.mjs'' \<and>
          (news s (snd (importPath e filepath origin s)) = [Wrote t, loadedAs e t origin]
           \<or> news s (snd (importPath e filepath origin s)) = [Wrote t, loadedAs e t origin, Removed t]))"
proof (cases "extname filepath = [] \<or> extname filepath = js ''.md''")
  case True
  then have ne: "extname filepath \<noteq> js ''.mjs''"
    by (auto simp: js_def)
  from importPath_written [OF True, of e origin s] ne show ?thesis
    by (auto simp: news_append news_def)
next
  case False
  with assms show ?thesis
    by (simp add: importPath_loaded(1) news_append)
qed

lemma importPath_news:
  "news s (snd (importPath e filepath origin s)) = []
   \<or> news s (snd (importPath e filepath origin s)) = [loadedAs e filepath origin]
   \<or> (\<exists>t. extname t = js ''.mjs'' \<and> extname filepath \<noteq> js ''.mjs'' \<and>
          (news s (snd (importPath e filepath origin s)) = [Wrote t, loadedAs e t origin]
           \<or> news s (snd (importPath e filepath origin s)) = [Wrote t, loadedAs e t origin, Removed t]))
   \<or> news s (snd (importPath e filepath origin s)) = [Compiled filepath]
   \<or> (\<exists>old t. extname t = js ''.mjs'' \<and> extname filepath \<noteq> js ''.mjs'' \<and>
          (news s (snd (importPath e filepath origin s))
             = [Compiled filepath, Renamed old t, loadedAs e t filepath]
           \<or> news s (snd (importPath e filepath origin s))
             = [Compiled filepath, Renamed old t, loadedAs e t filepath, Removed t]))"
proof (cases "extname filepath = js ''.ts''")
  case False
  from importPath_not_compiled [OF False, of s e origin] show ?thesis
    by blast
next
  case True
  then have ne: "extname filepath \<noteq> js ''.mjs''"
    by (simp add: js_def)
  from importPath_compiled [OF True, of e origin s] ne show ?thesis
    by (auto simp: news_append)
qed

lemma snd_case_result:
  "snd (case x of (Inl err, s2) \<Rightarrow> (Inl err, s2) | (Inr u, s2) \<Rightarrow> (Inr b, s2)) = snd x"
  by (cases x; cases "fst x") auto

lemma stdin_path:
  assumes "SLASH \<notin> set random"
  shows "regular (path_join tmp (random @ js ''.mjs''))"
    and "random \<noteq> [] \<Longrightarrow> extname (path_join tmp (random @ js ''.mjs'')) = js ''.mjs''"
    and "random = [] \<Longrightarrow> extname (path_join tmp (random @ js ''.mjs'')) = []"
proof -
  show "regular (path_join tmp (random @ js ''.mjs''))"
    by (rule regular_path_join [OF component_mjs [OF assms]])
  show "random \<noteq> [] \<Longrightarrow> extname (path_join tmp (random @ js ''.mjs'')) = js ''.mjs''"
    by (rule extname_path_join_mjs [OF _ assms])
  have "basename (path_join tmp (random @ js ''.mjs'')) = random @ js ''.mjs''"
    by (rule basename_path_join [OF component_mjs [OF assms]])
  then show "random = [] \<Longrightarrow> extname (path_join tmp (random @ js ''.mjs'')) = []"
    by (simp add: extname_def Let_def js_def DOT_def)
qed

lemma stdin_news:
  assumes "SLASH \<notin> set random"
  shows "news s (snd (scriptFromStdin e isTTY input random s)) = []
   \<or> (\<exists>p evs rest.
         news s (snd (scriptFromStdin e isTTY input random s)) = MadeDir p # Wrote p # evs @ rest \<and>
         (rest = [] \<or> rest = [Removed p]) \<and>
         (evs = [] \<or> evs = [loadedAs e p (path_join (cwd e) (js ''stdin.mjs''))]
          \<or> (\<exists>t. evs = [Wrote t, loadedAs e t (path_join (cwd e) (js ''stdin.mjs''))]
                \<or> evs = [Wrote t, loadedAs e t (path_join (cwd e) (js ''stdin.mjs'')), Removed t])))"
proof (cases "isTTY \<or> input = []")
  case True
  then have "snd (scriptFromStdin e isTTY input random s) = s"
    by (auto simp: scriptFromStdin_def)
  then show ?thesis by (simp add: news_def)
next
  case False
  let ?p = "path_join (tmpdir e) (random @ js ''.mjs'')"
  let ?o = "path_join (cwd e) (js ''stdin.mjs'')"
  let ?s1 = "mkdtemp ?p s"
  let ?w = "emit (Wrote ?p) (?s1\<lparr>files := (files ?s1)(?p \<mapsto> input)\<rparr>)"
  let ?x = "snd (importPath e ?p ?o ?w)"
  let ?s' = "snd (scriptFromStdin e isTTY input random s)"
  note p = stdin_path [OF assms, of "tmpdir e"]
  have nts: "extname ?p \<noteq> js ''.ts''"
    using p(2) p(3) by (cases "random = []") (simp_all add: js_def)
  have lw: "log ?w = log s @ [MadeDir ?p, Wrote ?p]"
    by (simp add: emit_def mkdtemp_def)
  from False have s': "?s' = snd (writeAndImport e input ?p ?o ?s1)"
    by (simp add: scriptFromStdin_def Let_def snd_case_result)
  obtain evs where x: "log ?x = log ?w @ evs" and evs: "news ?w ?x = evs"
    "evs = [] \<or> evs = [loadedAs e ?p ?o]
       \<or> (\<exists>t. evs = [Wrote t, loadedAs e t ?o] \<or> evs = [Wrote t, loadedAs e t ?o, Removed t])"
  proof -
    have shape: "news ?w ?x = [] \<or> news ?w ?x = [loadedAs e ?p ?o]
       \<or> (\<exists>t. news ?w ?x = [Wrote t, loadedAs e t ?o] \<or> news ?w ?x = [Wrote t, loadedAs e t ?o, Removed t])"
      using importPath_not_compiled [OF nts, of ?w e ?o] by blast
    have "\<exists>evs. log ?x = log ?w @ evs"
    proof (cases "extname ?p = [] \<or> extname ?p = js ''.md''")
      case True
      from importPath_written [OF True, of e ?o ?w] show ?thesis by auto
    next
      case False
      with nts show ?thesis by (simp add: importPath_loaded(1))
    qed
    then obtain evs where l: "log ?x = log ?w @ evs" by blast
    then have "news ?w ?x = evs" by (rule news_append)
    with shape l that show ?thesis by metis
  qed
  from log_writeAndImport [OF p(1), of e input ?o ?s1]
  have "log ?s' = log ?x \<or> log ?s' = log ?x @ [Removed ?p]"
    by (simp add: s')
  then have "\<exists>rest. news s ?s' = MadeDir ?p # Wrote ?p # evs @ rest \<and> (rest = [] \<or> rest = [Removed ?p])"
    by (auto simp: x lw news_def)
  with evs(2) show ?thesis by blast
qed

section \<open>The resolver's claims\<close>

text \<open>
  C1, as the specification states it: a path whose extension is none of the empty one,
  \<^verbatim>\<open>.md\<close>, \<^verbatim>\<open>.ts\<close> and \<^verbatim>\<open>.mjs\<close> fails and never reaches the module loader. The path
  \<^verbatim>\<open>/a/b.js\<close> has such an extension; it is handed to the loader and the resolution
  succeeds.
\<close>

theorem unrecognized_format_counterexample:
  "extname (js ''/a/b.js'') = js ''.js''
   \<and> fst (importPath demo_env (js ''/a/b.js'') (js ''/a/b.js'') demo_world) = Inr ()
   \<and> list_ex isImport (log (snd (importPath demo_env (js ''/a/b.js'') (js ''/a/b.js'') demo_world)))"
  by code_simp

text \<open>
  C1, amended. \<^verbatim>\<open>importPath\<close> has no failure of its own for an unknown extension. Every
  path whose extension is not empty, not \<^verbatim>\<open>.md\<close> and not \<^verbatim>\<open>.ts\<close> takes the last
  branch, the one \<^verbatim>\<open>.mjs\<close> takes: nothing is read, written or removed, the two globals
  are bound to the origin, the path is handed to the module loader, and the outcome is the
  loader's.
\<close>

theorem importPath_falls_through_to_loader:
  assumes "extname filepath \<noteq> []" "extname filepath \<noteq> js ''.md''" "extname filepath \<noteq> js ''.ts''"
  shows "importPath e filepath origin s =
     (case loader e (files s) filepath (Some (resolve (cwd e) origin))
              (Some (dirname (resolve (cwd e) origin))) of
        None \<Rightarrow> Inr ()
      | Some message \<Rightarrow> Inl (ImportRejected message),
      s\<lparr>g_filename := Some (resolve (cwd e) origin),
        g_dirname := Some (dirname (resolve (cwd e) origin)),
        log := log s @ [Import filepath (Some (resolve (cwd e) origin))
                          (Some (dirname (resolve (cwd e) origin)))]\<rparr>)"
  by (simp add: importPath_load [OF assms] fs_defs)

theorem importPath_falls_through_to_loader_witness:
  "extname (js ''/a/b.xyz'') = js ''.xyz''
   \<and> fst (importPath demo_env (js ''/a/b.xyz'') (js ''/a/b.xyz'') demo_world)
       = Inl (ImportRejected (js ''ERR_UNKNOWN_FILE_EXTENSION''))
   \<and> log (snd (importPath demo_env (js ''/a/b.xyz'') (js ''/a/b.xyz'') demo_world))
       = [Import (js ''/a/b.xyz'') (Some (js ''/a/b.xyz'')) (Some (js ''/a''))]"
proof -
  have x: "extname (js ''/a/b.xyz'') = js ''.xyz''"
    by code_simp
  have h: "extname (js ''/a/b.xyz'') \<noteq> []" "extname (js ''/a/b.xyz'') \<noteq> js ''.md''"
    "extname (js ''/a/b.xyz'') \<noteq> js ''.ts''"
    by code_simp+
  have g: "resolve (cwd demo_env) (js ''/a/b.xyz'') = js ''/a/b.xyz''"
    "dirname (js ''/a/b.xyz'') = js ''/a''" "log demo_world = []"
    by code_simp+
  have v: "loader demo_env (files demo_world) (js ''/a/b.xyz'') (Some (js ''/a/b.xyz''))
             (Some (js ''/a'')) = Some (js ''ERR_UNKNOWN_FILE_EXTENSION'')"
    by code_simp
  show ?thesis
    using x
    by (simp add: importPath_falls_through_to_loader [OF h, of demo_env "js ''/a/b.xyz''" demo_world]
          g v)
qed

text \<open>
  C3, at two inputs whose module throws when it is loaded: the extensionless file
  \<^verbatim>\<open>/a/run\<close> and standard input, both holding the text \<^verbatim>\<open>exit\<close>. The claim has the
  artifact removed on the failure path of its consumer too. In the source the consumer
  is started, then \<^verbatim>\<open>fs.rm\<close> is awaited, and only then the consumer: its rejection comes
  while the removal is pending and no handler is attached, so the process ends with an
  unhandled rejection. The artifacts \<^verbatim>\<open>/a/run.mjs\<close> and \<^verbatim>\<open>/tmp/k3x.mjs\<close> were written,
  were never removed, and still exist.
\<close>

theorem artifact_left_after_failed_load:
  "fst (importPath evaluating_env (js ''/a/run'') (js ''/a/run'') failing_world)
     = Inl (UnhandledRejection (ImportRejected (js ''ReferenceError: exit is not defined'')))
   \<and> log (snd (importPath evaluating_env (js ''/a/run'') (js ''/a/run'') failing_world))
     = [Wrote (js ''/a/run.mjs''),
        Import (js ''/a/run.mjs'') (Some (js ''/a/run'')) (Some (js ''/a''))]
   \<and> files (snd (importPath evaluating_env (js ''/a/run'') (js ''/a/run'') failing_world))
        (js ''/a/run.mjs'') = Some (js ''exit'')
   \<and> fst (scriptFromStdin evaluating_env False (js ''exit'') (js ''k3x'') demo_world)
     = Inl (UnhandledRejection (ImportRejected (js ''ReferenceError: exit is not defined'')))
   \<and> log (snd (scriptFromStdin evaluating_env False (js ''exit'') (js ''k3x'') demo_world))
     = [MadeDir (js ''/tmp/k3x.mjs''), Wrote (js ''/tmp/k3x.mjs''),
        Import (js ''/tmp/k3x.mjs'') (Some (js ''/home/u/stdin.mjs'')) (Some (js ''/home/u''))]
   \<and> files (snd (scriptFromStdin evaluating_env False (js ''exit'') (js ''k3x'') demo_world))
        (js ''/tmp/k3x.mjs'') = Some (js ''exit'')"
  by code_simp

text \<open>
  C8. At every module load of a resolution, \<^verbatim>\<open>__filename\<close> is the resolved path the
  resolution started from (the path given to \<^verbatim>\<open>importPath\<close>, or \<^verbatim>\<open>stdin.mjs\<close> in the
  working directory for standard input) and \<^verbatim>\<open>__dirname\<close> is its directory, also when
  the module that is loaded is a materialized \<^verbatim>\<open>.mjs\<close> file.
\<close>

theorem globals_bound_to_origin:
  assumes "SLASH \<notin> set random"
  shows "originBound e filepath (news s (snd (importPath e filepath filepath s)))
       \<and> originBound e (path_join (cwd e) (js ''stdin.mjs''))
           (news s (snd (scriptFromStdin e isTTY input random s)))"
proof
  show "originBound e filepath (news s (snd (importPath e filepath filepath s)))"
    using importPath_news [of s e filepath filepath]
    by (auto simp: originBound_def loadedAs_def)
  show "originBound e (path_join (cwd e) (js ''stdin.mjs''))
           (news s (snd (scriptFromStdin e isTTY input random s)))"
    using stdin_news [OF assms, of s e isTTY input]
    by (auto simp: originBound_def loadedAs_def)
qed

theorem globals_bound_to_origin_witness:
  "SLASH \<notin> set (js ''k3x'')
   \<and> news demo_world (snd (importPath demo_env (js ''/a/t.ts'') (js ''/a/t.ts'') demo_world))
       = [Compiled (js ''/a/t.ts''), Renamed (js ''/a/t.js'') (js ''/a/t.mjs''),
          Import (js ''/a/t.mjs'') (Some (js ''/a/t.ts'')) (Some (js ''/a'')),
          Removed (js ''/a/t.mjs'')]
   \<and> originBound demo_env (js ''/a/t.ts'')
        (news demo_world (snd (importPath demo_env (js ''/a/t.ts'') (js ''/a/t.ts'') demo_world)))
   \<and> news demo_world (snd (scriptFromStdin demo_env False (js ''exit'') (js ''k3x'') demo_world))
       = [MadeDir (js ''/tmp/k3x.mjs''), Wrote (js ''/tmp/k3x.mjs''),
          Import (js ''/tmp/k3x.mjs'') (Some (js ''/home/u/stdin.mjs'')) (Some (js ''/home/u'')),
          Removed (js ''/tmp/k3x.mjs'')]
   \<and> originBound demo_env (path_join (cwd demo_env) (js ''stdin.mjs''))
        (news demo_world (snd (scriptFromStdin demo_env False (js ''exit'') (js ''k3x'') demo_world)))"
proof -
  have h: "SLASH \<notin> set (js ''k3x'')"
    by code_simp
  have a: "news demo_world (snd (importPath demo_env (js ''/a/t.ts'') (js ''/a/t.ts'') demo_world))
       = [Compiled (js ''/a/t.ts''), Renamed (js ''/a/t.js'') (js ''/a/t.mjs''),
          Import (js ''/a/t.mjs'') (Some (js ''/a/t.ts'')) (Some (js ''/a'')),
          Removed (js ''/a/t.mjs'')]"
    by code_simp
  have b: "news demo_world (snd (scriptFromStdin demo_env False (js ''exit'') (js ''k3x'') demo_world))
       = [MadeDir (js ''/tmp/k3x.mjs''), Wrote (js ''/tmp/k3x.mjs''),
          Import (js ''/tmp/k3x.mjs'') (Some (js ''/home/u/stdin.mjs'')) (Some (js ''/home/u'')),
          Removed (js ''/tmp/k3x.mjs'')]"
    by code_simp
  from globals_bound_to_origin [OF h, of demo_env "js ''/a/t.ts''" demo_world False "js ''exit''"]
  have c: "originBound demo_env (js ''/a/t.ts'')
        (news demo_world (snd (importPath demo_env (js ''/a/t.ts'') (js ''/a/t.ts'') demo_world)))"
    and d: "originBound demo_env (path_join (cwd demo_env) (js ''stdin.mjs''))
        (news demo_world (snd (scriptFromStdin demo_env False (js ''exit'') (js ''k3x'') demo_world)))"
    by blast+
  from h a c b d show ?thesis
    by (intro conjI)
qed

text \<open>
  C9. \<^verbatim>\<open>importPath\<close> returns for every path: the recursion of \<^verbatim>\<open>importPath\<close> and
  \<^verbatim>\<open>writeAndImport\<close> is well-founded, by the measure \<open>rank\<close>. Each recursive call
  follows the materialization of one artifact, and a call of \<^verbatim>\<open>importPath\<close> materializes
  at most one: its extension is \<^verbatim>\<open>.mjs\<close> and differs from the extension of the path
  that was transformed, and at most one module is loaded.
\<close>

theorem importPath_one_step:
  "length (artifacts (news s (snd (importPath e filepath origin s)))) \<le> 1
   \<and> list_all (\<lambda>t. extname t = js ''.mjs'' \<and> extname t \<noteq> extname filepath)
       (artifacts (news s (snd (importPath e filepath origin s))))
   \<and> length (filter isImport (news s (snd (importPath e filepath origin s)))) \<le> 1"
  using importPath_news [of s e filepath origin]
  by (auto simp: artifacts_def loadedAs_def)

theorem importPath_one_step_witness:
  "artifacts (news demo_world (snd (importPath demo_env (js ''/a/run'') (js ''/a/run'') demo_world)))
     = [js ''/a/run.mjs'']
   \<and> extname (js ''/a/run'') = []
   \<and> list_all (\<lambda>t. extname t = js ''.mjs'' \<and> extname t \<noteq> extname (js ''/a/run''))
       (artifacts (news demo_world (snd (importPath demo_env (js ''/a/run'') (js ''/a/run'') demo_world))))
   \<and> length (filter isImport
        (news demo_world (snd (importPath demo_env (js ''/a/run'') (js ''/a/run'') demo_world)))) \<le> 1"
proof -
  have a: "artifacts (news demo_world (snd (importPath demo_env (js ''/a/run'') (js ''/a/run'') demo_world)))
     = [js ''/a/run.mjs'']"
    by code_simp
  have b: "extname (js ''/a/run'') = []"
    by code_simp
  from importPath_one_step [of demo_world demo_env "js ''/a/run''" "js ''/a/run''"]
  have c: "list_all (\<lambda>t. extname t = js ''.mjs'' \<and> extname t \<noteq> extname (js ''/a/run''))
       (artifacts (news demo_world (snd (importPath demo_env (js ''/a/run'') (js ''/a/run'') demo_world))))"
    and d: "length (filter isImport
        (news demo_world (snd (importPath demo_env (js ''/a/run'') (js ''/a/run'') demo_world)))) \<le> 1"
    by blast+
  from a b c d show ?thesis
    by (intro conjI)
qed

text \<open>
  C10, as the specification states it: a path ending in \<^verbatim>\<open>.MD\<close> is dispatched like its
  lowercase form. \<^verbatim>\<open>/a/README.md\<close> goes through the extractor (its text is written to
  \<^verbatim>\<open>/a/README.md.mjs\<close>, loaded and removed); \<^verbatim>\<open>/a/README.MD\<close>, with the same text, is
  handed to the module loader as it is.
\<close>

theorem lowercase_extension_counterexample:
  "news demo_world (snd (importPath demo_env (js ''/a/README.md'') (js ''/a/README.md'') demo_world))
     = [Wrote (js ''/a/README.md.mjs''),
        Import (js ''/a/README.md.mjs'') (Some (js ''/a/README.md'')) (Some (js ''/a'')),
        Removed (js ''/a/README.md.mjs'')]
   \<and> news demo_world (snd (importPath demo_env (js ''/a/README.MD'') (js ''/a/README.MD'') demo_world))
     = [Import (js ''/a/README.MD'') (Some (js ''/a/README.MD'')) (Some (js ''/a''))]"
  by code_simp

text \<open>
  C10, amended. The extension used for dispatch is \<^verbatim>\<open>extname(filepath)\<close> with the
  letter case of the path, compared with \<^verbatim>\<open>===\<close>: a path whose extension is exactly
  \<^verbatim>\<open>.md\<close> is read and goes through \<^verbatim>\<open>transformMarkdown\<close>; a path whose extension
  differs from it in letter case (\<^verbatim>\<open>.MD\<close>, \<^verbatim>\<open>.Md\<close>, \<^verbatim>\<open>.mD\<close>) is handed to the module
  loader as it is.
\<close>

theorem importPath_case_sensitive:
  "(extname filepath = js ''.md'' \<longrightarrow>
      importPath e filepath origin s =
        (case readFile filepath s of
           Inl err \<Rightarrow> (Inl err, s)
         | Inr source \<Rightarrow>
             writeAndImport e (transformMarkdown source)
               (path_join (dirname filepath) (basename filepath @ js ''.mjs'')) origin s))
   \<and> (extname filepath = js ''.MD'' \<or> extname filepath = js ''.Md'' \<or> extname filepath = js ''.mD'' \<longrightarrow>
      importPath e filepath origin s =
        import_module e filepath
          (assign_globals (resolve (cwd e) origin) (dirname (resolve (cwd e) origin)) s))"
proof (intro conjI impI)
  assume "extname filepath = js ''.md''"
  then show "importPath e filepath origin s =
        (case readFile filepath s of
           Inl err \<Rightarrow> (Inl err, s)
         | Inr source \<Rightarrow>
             writeAndImport e (transformMarkdown source)
               (path_join (dirname filepath) (basename filepath @ js ''.mjs'')) origin s)"
    by (subst importPath.simps) (simp add: Let_def ext_distinct)
next
  assume "extname filepath = js ''.MD'' \<or> extname filepath = js ''.Md'' \<or> extname filepath = js ''.mD''"
  then have "extname filepath \<noteq> []" "extname filepath \<noteq> js ''.md''" "extname filepath \<noteq> js ''.ts''"
    by (auto simp: js_def)
  then show "importPath e filepath origin s =
        import_module e filepath
          (assign_globals (resolve (cwd e) origin) (dirname (resolve (cwd e) origin)) s)"
    by (rule importPath_load)
qed

theorem importPath_case_sensitive_witness:
  "extname (js ''/a/README.md'') = js ''.md''
   \<and> importPath demo_env (js ''/a/README.md'') (js ''/a/README.md'') demo_world =
       writeAndImport demo_env (js ''await $`\<newline>ls\<newline>`'') (js ''/a/README.md.mjs'')
         (js ''/a/README.md'') demo_world
   \<and> extname (js ''/a/README.MD'') = js ''.MD''
   \<and> importPath demo_env (js ''/a/README.MD'') (js ''/a/README.MD'') demo_world =
       import_module demo_env (js ''/a/README.MD'')
         (assign_globals (js ''/a/README.MD'') (js ''/a'') demo_world)"
proof -
  have a: "extname (js ''/a/README.md'') = js ''.md''"
    by code_simp
  have b: "extname (js ''/a/README.MD'') = js ''.MD''"
    by code_simp
  have r: "readFile (js ''/a/README.md'') demo_world = Inr (js ''```sh\<newline>ls\<newline>```'')"
    by code_simp
  have t: "transformMarkdown (js ''```sh\<newline>ls\<newline>```'') = js ''await $`\<newline>ls\<newline>`''"
    by code_simp
  have p: "path_join (dirname (js ''/a/README.md'')) (basename (js ''/a/README.md'') @ js ''.mjs'')
      = js ''/a/README.md.mjs''"
    by code_simp
  have g: "resolve (cwd demo_env) (js ''/a/README.MD'') = js ''/a/README.MD''"
    "dirname (js ''/a/README.MD'') = js ''/a''"
    by code_simp+
  have "importPath demo_env (js ''/a/README.md'') (js ''/a/README.md'') demo_world =
       writeAndImport demo_env (js ''await $`\<newline>ls\<newline>`'') (js ''/a/README.md.mjs'')
         (js ''/a/README.md'') demo_world"
    using importPath_case_sensitive [of "js ''/a/README.md''" demo_env "js ''/a/README.md''" demo_world] a
    by (simp add: r t p)
  moreover have "importPath demo_env (js ''/a/README.MD'') (js ''/a/README.MD'') demo_world =
       import_module demo_env (js ''/a/README.MD'')
         (assign_globals (js ''/a/README.MD'') (js ''/a'') demo_world)"
    using importPath_case_sensitive [of "js ''/a/README.MD''" demo_env "js ''/a/README.MD''" demo_world] b
    by (simp add: g)
  ultimately show ?thesis
    using a b by (intro conjI)
qed

end
